theory Spec2Isabelle
  imports Complex_Main
begin

section \<open>Interleaved pedestal finder (lstchain\_find\_pedestals.py)\<close>

text \<open>
  The script works on numpy arrays of 64-bit floats.  The embedding uses exact rational
  arithmetic: a finite float is a \<open>rat\<close>, and a float that may be NaN is a
  \<open>rat option\<close> with \<open>None\<close> for NaN.  Rounding and infinities are not modelled.
  Every exception the code can raise on the way is a branch of the model.
\<close>

datatype error = ValueError | IndexError | ZeroDivisionError | TypeError

subsection \<open>numpy primitives used by the script\<close>

text \<open>\<open>x % p\<close> on floats: the result has the sign of the divisor; \<open>p = 0\<close> gives NaN.\<close>

definition py_mod :: "rat \<Rightarrow> rat \<Rightarrow> rat option" where
  "py_mod x p = (if p = 0 then None else Some (x - of_int \<lfloor>x / p\<rfloor> * p))"

text \<open>\<open>np.linspace(start, stop, num)\<close> with the default \<open>endpoint=True\<close>.\<close>

definition linspace :: "rat \<Rightarrow> rat \<Rightarrow> nat \<Rightarrow> rat list" where
  "linspace start stop num =
     map (\<lambda>k. start + of_nat k * ((stop - start) / of_nat (num - 1))) [0..<num]"

text \<open>
  The bin of one value in an equal-width histogram of \<open>n\<close> bins over \<open>[lo, hi]\<close>:
  NaN and values outside the range are dropped, the right edge belongs to the last bin.
\<close>

definition bin_index :: "rat \<Rightarrow> rat \<Rightarrow> nat \<Rightarrow> rat option \<Rightarrow> nat option" where
  "bin_index lo hi n x =
     (case x of
        None \<Rightarrow> None
      | Some v \<Rightarrow>
          if v < lo \<or> hi < v then None
          else Some (min (nat \<lfloor>(v - lo) / (hi - lo) * of_nat n\<rfloor>) (n - 1)))"

text \<open>
  \<open>np.histogram(a, bins=n, range=(lo, hi))\<close>: raises ValueError when \<open>n < 1\<close> or
  \<open>lo > hi\<close>; an empty range is widened by one half on each side.  Returns the counts
  and the \<open>n + 1\<close> bin edges.
\<close>

definition histogram ::
  "rat option list \<Rightarrow> nat \<Rightarrow> rat \<Rightarrow> rat \<Rightarrow> error + (nat list \<times> rat list)" where
  "histogram a n lo hi =
     (if n < 1 then Inl ValueError
      else if hi < lo then Inl ValueError
      else
        let lo' = (if lo = hi then lo - 1 / 2 else lo);
            hi' = (if lo = hi then hi + 1 / 2 else hi)
        in Inr (map (\<lambda>j. length (filter (\<lambda>x. bin_index lo' hi' n x = Some j) a)) [0..<n],
                linspace lo' hi' (n + 1)))"

text \<open>\<open>np.max\<close> of the bin counts (never empty: the histogram has at least one bin).\<close>

definition np_max :: "nat list \<Rightarrow> nat" where
  "np_max xs = fold max xs 0"

text \<open>\<open>np.argmax\<close>: the first index holding the maximum.\<close>

fun first_index :: "nat list \<Rightarrow> nat \<Rightarrow> nat" where
  "first_index [] v = 0"
| "first_index (x # xs) v = (if x = v then 0 else Suc (first_index xs v))"

definition np_argmax :: "nat list \<Rightarrow> nat" where
  "np_argmax xs = first_index xs (np_max xs)"

text \<open>
  Reading one element of an array at a Python integer: an index below zero is taken
  from the end of the array, and anything beyond either end raises IndexError.
\<close>

definition py_get :: "'a list \<Rightarrow> int \<Rightarrow> error + 'a" where
  "py_get xs i =
     (if 0 \<le> i \<and> i < int (length xs) then Inr (xs ! nat i)
      else if i < 0 \<and> - int (length xs) \<le> i then Inr (xs ! nat (int (length xs) + i))
      else Inl IndexError)"

subsection \<open>find\_pedestals\<close>

text \<open>The local variables of \<open>find_pedestals\<close> that the two loops update.\<close>

record search_state =
  max_peak :: nat
  best_bins :: "rat list option"
  best_contents :: "nat list option"
  best_period :: "rat option"
  best_phase :: rat

definition init_state :: search_state where
  "init_state = \<lparr>max_peak = 0, best_bins = None, best_contents = None,
                  best_period = None, best_phase = 0\<rparr>"

definition period_step_width :: rat where
  "period_step_width = 1 / 10000000"

definition period_step_range :: "rat list" where
  "period_step_range = linspace (- 50) 50 101"

definition steps :: nat where
  "steps = 1000"

text \<open>A \<open>for\<close> loop whose body may raise: the first error ends the loop.\<close>

fun for_loop :: "('s \<Rightarrow> 'a \<Rightarrow> error + 's) \<Rightarrow> 's \<Rightarrow> 'a list \<Rightarrow> error + 's" where
  "for_loop body s [] = Inr s"
| "for_loop body s (x # xs) =
     (case body s x of Inl e \<Rightarrow> Inl e | Inr s' \<Rightarrow> for_loop body s' xs)"

text \<open>Body of the period loop (lines 128--136).\<close>

definition period_body ::
  "rat list \<Rightarrow> nat \<Rightarrow> rat \<Rightarrow> search_state \<Rightarrow> rat \<Rightarrow> error + search_state" where
  "period_body timestamps nbins period_mean s i =
     (let tmod = map (\<lambda>t. py_mod t (period_mean + i * period_step_width)) timestamps
      in case histogram tmod nbins 0 period_mean of
           Inl e \<Rightarrow> Inl e
         | Inr (contents, bins) \<Rightarrow>
             if np_max contents < max_peak s then Inr s
             else Inr (s\<lparr>max_peak := np_max contents,
                         best_bins := Some bins,
                         best_contents := Some contents,
                         best_period := Some (period_mean + i * period_step_width)\<rparr>))"

text \<open>Body of the phase loop (lines 144--152).\<close>

definition phase_body ::
  "rat list \<Rightarrow> nat \<Rightarrow> rat \<Rightarrow> search_state \<Rightarrow> rat \<Rightarrow> error + search_state" where
  "phase_body timestamps nbins bp s phase =
     (let tmod = map (\<lambda>t. py_mod (t + phase) bp) timestamps
      in case histogram tmod nbins 0 bp of
           Inl e \<Rightarrow> Inl e
         | Inr (contents, bins) \<Rightarrow>
             if np_max contents < max_peak s then Inr s
             else Inr (s\<lparr>max_peak := np_max contents,
                         best_phase := phase,
                         best_contents := Some contents,
                         best_bins := Some bins\<rparr>))"

text \<open>The period search (lines 111--136), for any grid of period steps.\<close>

definition period_search :: "rat list \<Rightarrow> rat \<Rightarrow> rat list \<Rightarrow> error + search_state" where
  "period_search timestamps period_mean grid =
     for_loop (period_body timestamps (length timestamps) period_mean) init_state grid"

text \<open>
  The phase search (lines 140--152), for any number of phase steps.  The grid is built
  from \<open>best_period\<close>; \<open>None\<close> there is a TypeError in \<open>np.linspace\<close>.
\<close>

definition phase_grid :: "rat \<Rightarrow> nat \<Rightarrow> rat list" where
  "phase_grid bp nsteps = linspace 0 bp nsteps"

definition phase_search :: "rat list \<Rightarrow> search_state \<Rightarrow> nat \<Rightarrow> error + search_state" where
  "phase_search timestamps s nsteps =
     (case best_period s of
        None \<Rightarrow> Inl TypeError
      | Some bp \<Rightarrow>
          for_loop (phase_body timestamps (length timestamps) bp)
            (s\<lparr>max_peak := 0, best_phase := 0\<rparr>) (phase_grid bp nsteps))"

text \<open>Sequencing of two steps of which the first may raise.\<close>

definition then_do :: "error + 'a \<Rightarrow> ('a \<Rightarrow> error + 'b) \<Rightarrow> error + 'b" where
  "then_do r f = (case r of Inl e \<Rightarrow> Inl e | Inr v \<Rightarrow> f v)"

text \<open>
  The window selector (lines 156--167): the peak bin, the two neighbour checks and the
  two edges of the window.  \<open>0.1 * c\<close> is compared exactly, as \<open>c / 10\<close>.  The reads are
  in the order of the source and are not guarded there.
\<close>

definition exceeds_tenth :: "nat \<Rightarrow> nat \<Rightarrow> bool" where
  "exceeds_tenth c peak = ((of_nat peak :: rat) / 10 < of_nat c)"

definition window_edges :: "nat list \<Rightarrow> rat list \<Rightarrow> error + (rat \<times> rat)" where
  "window_edges contents bins =
     (let ibin = int (np_argmax contents) in
      then_do (py_get contents (ibin - 1)) (\<lambda>left.
      then_do (py_get contents ibin) (\<lambda>peak.
      let ifirst = (if exceeds_tenth left peak then ibin - 1 else ibin) in
      then_do (py_get contents (ibin + 1)) (\<lambda>right.
      let ilast = (if exceeds_tenth right peak then ibin + 1 else ibin) in
      then_do (py_get bins ifirst) (\<lambda>minval.
      then_do (py_get bins (ilast + 1)) (\<lambda>maxval.
      Inr (minval, maxval)))))))"

text \<open>Line 169: strictly inside the window; a comparison with NaN is false.\<close>

definition in_window :: "rat \<Rightarrow> rat \<Rightarrow> rat option \<Rightarrow> bool" where
  "in_window minval maxval x =
     (case x of None \<Rightarrow> False | Some v \<Rightarrow> minval < v \<and> v < maxval)"

definition window_select ::
  "nat list \<Rightarrow> rat list \<Rightarrow> rat option list \<Rightarrow> error + bool list" where
  "window_select contents bins tmod =
     then_do (window_edges contents bins)
       (\<lambda>(minval, maxval). Inr (map (in_window minval maxval) tmod))"

text \<open>Lines 154--169 on the variables the loops left behind.\<close>

definition select_from :: "rat list \<Rightarrow> search_state \<Rightarrow> error + bool list" where
  "select_from timestamps s =
     (case best_period s of
        None \<Rightarrow> Inl TypeError
      | Some bp \<Rightarrow>
         (case best_contents s of
            None \<Rightarrow> Inl TypeError
          | Some contents \<Rightarrow>
             (case best_bins s of
                None \<Rightarrow> Inl TypeError
              | Some bins \<Rightarrow>
                  window_select contents bins
                    (map (\<lambda>t. py_mod (t + best_phase s) bp) timestamps))))"

text \<open>
  Lines 111--152: both searches, with the two grids as parameters.  \<open>1 / aprox_frequency\<close>
  on the Python integer 0 raises ZeroDivisionError.
\<close>

definition search_on :: "rat list \<Rightarrow> nat \<Rightarrow> rat list \<Rightarrow> rat \<Rightarrow> error + search_state" where
  "search_on grid nsteps timestamps aprox_frequency =
     (if aprox_frequency = 0 then Inl ZeroDivisionError
      else then_do (period_search timestamps (1 / aprox_frequency) grid)
             (\<lambda>s1. phase_search timestamps s1 nsteps))"

definition find_pedestals_on ::
  "rat list \<Rightarrow> nat \<Rightarrow> rat list \<Rightarrow> rat \<Rightarrow> error + bool list" where
  "find_pedestals_on grid nsteps timestamps aprox_frequency =
     then_do (search_on grid nsteps timestamps aprox_frequency) (select_from timestamps)"

text \<open>\<open>find_pedestals\<close> as the script runs it: 101 period steps, 1000 phase steps.\<close>

definition find_pedestals :: "rat list \<Rightarrow> rat \<Rightarrow> error + bool list" where
  "find_pedestals = find_pedestals_on period_step_range steps"

text \<open>The peak \<open>np.max(contents)\<close> that a period or phase hypothesis scores.\<close>

definition peak_of :: "error + (nat list \<times> rat list) \<Rightarrow> nat" where
  "peak_of h = (case h of Inl e \<Rightarrow> 0 | Inr (contents, bins) \<Rightarrow> np_max contents)"

definition period_peak :: "rat list \<Rightarrow> rat \<Rightarrow> rat \<Rightarrow> nat" where
  "period_peak timestamps period_mean i =
     peak_of (histogram (map (\<lambda>t. py_mod t (period_mean + i * period_step_width)) timestamps)
                (length timestamps) 0 period_mean)"

definition phase_peak :: "rat list \<Rightarrow> rat \<Rightarrow> rat \<Rightarrow> nat" where
  "phase_peak timestamps bp phase =
     peak_of (histogram (map (\<lambda>t. py_mod (t + phase) bp) timestamps)
                (length timestamps) 0 bp)"

subsection \<open>The sub-run loop of main (lines 41--73)\<close>

text \<open>
  One row of the DL1 parameters table, with the four columns the script reads.
  Lines 75--86 (the printed report and the output file) are not modelled.
\<close>

record event =
  event_id :: int
  dragon_time :: rat
  intensity :: "rat option"
  concentration_pixel :: "rat option"

definition approximate_frequency :: "int \<Rightarrow> rat" where
  "approximate_frequency run_number = (if run_number > 2708 then 100 else 50)"

text \<open>Comparisons of a column with a constant; NaN compares false.\<close>

definition gt_const :: "rat option \<Rightarrow> rat \<Rightarrow> bool" where
  "gt_const x c = (case x of None \<Rightarrow> False | Some v \<Rightarrow> c < v)"

definition lt_const :: "rat option \<Rightarrow> rat \<Rightarrow> bool" where
  "lt_const x c = (case x of None \<Rightarrow> False | Some v \<Rightarrow> v < c)"

definition ffmask :: "event list \<Rightarrow> bool list" where
  "ffmask table =
     map2 (\<lambda>i c. gt_const i 30000 \<and> lt_const c (5 / 1000))
       (map intensity table) (map concentration_pixel table)"

text \<open>\<open>a[sel]\<close> for a boolean array \<open>sel\<close>.\<close>

definition select_where :: "'a list \<Rightarrow> bool list \<Rightarrow> 'a list" where
  "select_where a sel = map fst (filter snd (zip a sel))"

text \<open>
  \<open>a[sel] = vals\<close>: the selected positions take the values in order; a single value is
  broadcast; any other length mismatch is a ValueError.
\<close>

fun assign_walk :: "'a list \<Rightarrow> bool list \<Rightarrow> 'a list \<Rightarrow> 'a list" where
  "assign_walk (a # as) (m # ms) vals =
     (if m then (case vals of [] \<Rightarrow> a # assign_walk as ms []
                 | v # vs \<Rightarrow> v # assign_walk as ms vs)
      else a # assign_walk as ms vals)"
| "assign_walk as ms vals = as"

definition masked_assign :: "'a list \<Rightarrow> bool list \<Rightarrow> 'a list \<Rightarrow> error + 'a list" where
  "masked_assign a sel vals =
     (let k = length (filter id sel) in
      if length vals = k then Inr (assign_walk a sel vals)
      else if length vals = 1 then Inr (assign_walk a sel (replicate k (hd vals)))
      else Inl ValueError)"

text \<open>Lines 49--58: the candidate mask scattered into a full-length mask.\<close>

definition scattered_on :: "rat list \<Rightarrow> nat \<Rightarrow> event list \<Rightarrow> int \<Rightarrow> error + bool list" where
  "scattered_on grid nsteps table run_number =
     (let all_times = map dragon_time table;
          candidate = map Not (ffmask table)
      in then_do (find_pedestals_on grid nsteps (select_where all_times candidate)
                    (approximate_frequency run_number))
           (masked_assign (replicate (length table) False) candidate))"

text \<open>Line 67: NaN intensities become 0.\<close>

definition nan_to_zero :: "rat option \<Rightarrow> rat" where
  "nan_to_zero x = (case x of None \<Rightarrow> 0 | Some v \<Rightarrow> v)"

text \<open>
  \<open>np.argsort\<close>: the indices in ascending order of the values.  numpy's default sort
  kind does not promise an order among equal values; the model takes the stable order.
\<close>

definition argsort :: "rat list \<Rightarrow> nat list" where
  "argsort xs = sort_key (\<lambda>i. xs ! i) [0..<length xs]"

text \<open>Lines 69--73: the ten brightest selected events are cleared.\<close>

definition remove_indices :: "rat list \<Rightarrow> bool list \<Rightarrow> nat list" where
  "remove_indices intens pedmask = filter (\<lambda>i. pedmask ! i) (rev (argsort intens))"

definition remove_brightest :: "rat list \<Rightarrow> bool list \<Rightarrow> bool list" where
  "remove_brightest intens pedmask =
     fold (\<lambda>i m. m[i := False]) (take 10 (remove_indices intens pedmask)) pedmask"

definition process_subrun_on ::
  "rat list \<Rightarrow> nat \<Rightarrow> event list \<Rightarrow> int \<Rightarrow> error + bool list" where
  "process_subrun_on grid nsteps table run_number =
     then_do (scattered_on grid nsteps table run_number)
       (\<lambda>pedmask. Inr (remove_brightest (map (nan_to_zero \<circ> intensity) table) pedmask))"

definition process_subrun :: "event list \<Rightarrow> int \<Rightarrow> error + bool list" where
  "process_subrun = process_subrun_on period_step_range steps"

text \<open>The three \<open>best_\<close> variables hold a value (they start as \<open>None\<close>).\<close>

definition found :: "search_state \<Rightarrow> bool" where
  "found s = (best_period s \<noteq> None \<and> best_contents s \<noteq> None \<and> best_bins s \<noteq> None)"

text \<open>
  The bin edges every histogram of the phase loop returns, and what holds of the
  variables once the phase loop has run an iteration.
\<close>

definition phase_edges :: "nat \<Rightarrow> rat \<Rightarrow> rat list" where
  "phase_edges n bp =
     linspace (if 0 = bp then 0 - 1 / 2 else 0) (if 0 = bp then bp + 1 / 2 else bp) (n + 1)"

definition phase_done :: "nat \<Rightarrow> rat \<Rightarrow> search_state \<Rightarrow> bool" where
  "phase_done n bp s =
     (best_period s = Some bp \<and> best_bins s = Some (phase_edges n bp) \<and>
      (\<exists>c. best_contents s = Some c \<and> length c = n) \<and> 1 \<le> n \<and> 0 \<le> bp)"

section \<open>Properties\<close>

subsection \<open>Loops and histograms\<close>

lemma for_loop_inv:
  assumes "for_loop body s xs = Inr s'" and "P s"
    and "\<And>t x t1. x \<in> set xs \<Longrightarrow> P t \<Longrightarrow> body t x = Inr t1 \<Longrightarrow> P t1"
  shows "P s'"
  using assms
proof (induction xs arbitrary: s)
  case Nil
  then show ?case by simp
next
  case (Cons x xs)
  from Cons.prems(1) obtain s1 where b: "body s x = Inr s1" and l: "for_loop body s1 xs = Inr s'"
    by (auto split: sum.splits)
  have "P s1" using Cons.prems(3) [of x s s1] Cons.prems(2) b by simp
  moreover have "\<And>t y t1. y \<in> set xs \<Longrightarrow> P t \<Longrightarrow> body t y = Inr t1 \<Longrightarrow> P t1"
    using Cons.prems(3) by (meson list.set_intros(2))
  ultimately show ?case using Cons.IH [OF l] by blast
qed

lemma for_loop_total:
  assumes "\<And>t x. x \<in> set xs \<Longrightarrow> \<exists>t1. body t x = Inr t1"
  shows "\<exists>s'. for_loop body s xs = Inr s'"
  using assms
proof (induction xs arbitrary: s)
  case Nil
  then show ?case by simp
next
  case (Cons x xs)
  then obtain s1 where b: "body s x = Inr s1" by (meson list.set_intros(1))
  then show ?case using Cons by simp
qed

lemma histogram_Inl: "histogram a n lo hi = Inl e \<Longrightarrow> e = ValueError \<and> (n = 0 \<or> hi < lo)"
  by (auto simp: histogram_def Let_def split: if_splits)

lemma histogram_ok:
  "1 \<le> n \<Longrightarrow> lo \<le> hi \<Longrightarrow> \<exists>c b. histogram a n lo hi = Inr (c, b) \<and> length c = n"
  by (auto simp: histogram_def Let_def)

lemma period_step_range_Cons: "period_step_range = (- 50) # tl period_step_range"
  by (simp add: period_step_range_def linspace_def upt_conv_Cons)

lemma period_search_empty: "period_search [] pm period_step_range = Inl ValueError"
proof -
  have "period_search [] pm ((- 50) # tl period_step_range) = Inl ValueError"
    by (simp add: period_search_def period_body_def histogram_def)
  then show ?thesis using period_step_range_Cons by simp
qed

subsection \<open>The phase grid\<close>

text \<open>
  C7, as stated, fails: \<open>np.linspace\<close> includes its end point, so the last of the 1000
  trial phases is \<open>best_period\<close> itself.
\<close>

theorem phase_grid_last_is_best_period: "phase_grid (1 / 50) steps ! 999 = 1 / 50"
  by (simp add: phase_grid_def linspace_def steps_def)

text \<open>
  C7, amended: the trial phases are the 1000 points \<open>k * best_period / 999\<close> of the closed
  interval \<open>[0, best_period]\<close>; the first is 0 and the last is \<open>best_period\<close>.
\<close>

theorem phase_grid_closed_interval:
  "0 < bp \<Longrightarrow>
     length (phase_grid bp steps) = 1000 \<and>
     phase_grid bp steps ! 0 = 0 \<and>
     phase_grid bp steps ! 999 = bp \<and>
     (\<forall>k<1000. phase_grid bp steps ! k = of_nat k * (bp / 999) \<and>
                0 \<le> phase_grid bp steps ! k \<and> phase_grid bp steps ! k \<le> bp)"
proof -
  assume bp: "0 < bp"
  have len: "length (phase_grid bp steps) = 1000"
    by (simp add: phase_grid_def linspace_def steps_def)
  have nth: "phase_grid bp steps ! k = of_nat k * (bp / 999)" if "k < 1000" for k
    using that by (simp add: phase_grid_def linspace_def steps_def)
  have rng: "0 \<le> of_nat k * (bp / 999) \<and> of_nat k * (bp / 999) \<le> bp" if "k < 1000" for k
  proof -
    have "(of_nat k :: rat) \<le> 999" using that by simp
    then have "of_nat k * (bp / 999) \<le> 999 * (bp / 999)"
      using bp by (intro mult_right_mono) simp_all
    then show ?thesis using bp by simp
  qed
  have "phase_grid bp steps ! 0 = 0" using nth [of 0] by simp
  moreover have "phase_grid bp steps ! 999 = bp" using nth [of 999] by simp
  moreover have "\<forall>k<1000. phase_grid bp steps ! k = of_nat k * (bp / 999) \<and>
                0 \<le> phase_grid bp steps ! k \<and> phase_grid bp steps ! k \<le> bp"
    using nth rng by metis
  ultimately show ?thesis using len by blast
qed

theorem phase_grid_closed_interval_witness:
  "(0::rat) < 1 / 50 \<and>
     length (phase_grid (1 / 50) steps) = 1000 \<and>
     phase_grid (1 / 50) steps ! 0 = 0 \<and>
     phase_grid (1 / 50) steps ! 999 = 1 / 50 \<and>
     phase_grid (1 / 50) steps ! 500 = of_nat 500 * ((1 / 50) / 999) \<and>
     0 \<le> phase_grid (1 / 50) steps ! 500 \<and> phase_grid (1 / 50) steps ! 500 \<le> 1 / 50"
proof -
  have h: "(0::rat) < 1 / 50" by simp
  have k: "(500::nat) < 1000" by simp
  show ?thesis using h k phase_grid_closed_interval [OF h] by blast
qed

subsection \<open>The running best is always set\<close>

lemma period_body_total:
  "1 \<le> n \<Longrightarrow> 0 \<le> pm \<Longrightarrow> \<exists>s1. period_body ts n pm s i = Inr s1"
proof -
  assume "1 \<le> n" and "0 \<le> pm"
  then obtain c b where
    "histogram (map (\<lambda>t. py_mod t (pm + i * period_step_width)) ts) n 0 pm = Inr (c, b)"
    using histogram_ok by blast
  then show ?thesis by (simp add: period_body_def Let_def)
qed

lemma period_body_first:
  assumes "period_body ts n pm s i = Inr s1" and "max_peak s = 0"
  shows "best_period s1 = Some (pm + i * period_step_width) \<and> found s1"
  using assms
  by (auto simp: period_body_def Let_def found_def split: sum.splits prod.splits if_splits)

lemma period_body_found:
  assumes "period_body ts n pm s i = Inr s1" and "found s"
  shows "found s1"
  using assms
  by (auto simp: period_body_def Let_def found_def split: sum.splits prod.splits if_splits)

lemma phase_body_found:
  assumes "phase_body ts n bp s ph = Inr s1" and "found s"
  shows "found s1"
  using assms
  by (auto simp: phase_body_def Let_def found_def split: sum.splits prod.splits if_splits)

lemma period_search_found:
  assumes "period_search ts pm (i # grid) = Inr s"
  shows "found s"
proof -
  from assms obtain s1 where
    b: "period_body ts (length ts) pm init_state i = Inr s1" and
    l: "for_loop (period_body ts (length ts) pm) s1 grid = Inr s"
    by (auto simp: period_search_def split: sum.splits)
  have "found s1" using period_body_first [OF b] by (simp add: init_state_def)
  then show ?thesis
    using for_loop_inv [OF l, of found] period_body_found by blast
qed

lemma phase_search_found:
  assumes "phase_search ts s n = Inr s2" and "found s"
  shows "found s2"
proof -
  from assms obtain bp where bp: "best_period s = Some bp"
    and l: "for_loop (phase_body ts (length ts) bp) (s\<lparr>max_peak := 0, best_phase := 0\<rparr>) (phase_grid bp n) = Inr s2"
    by (auto simp: phase_search_def split: option.splits)
  have "found (s\<lparr>max_peak := 0, best_phase := 0\<rparr>)" using assms(2) by (simp add: found_def)
  then show ?thesis using for_loop_inv [OF l, of found] phase_body_found by blast
qed

lemma period_search_total:
  assumes "ts \<noteq> []" and "0 \<le> pm"
  shows "\<exists>s. period_search ts pm grid = Inr s"
  unfolding period_search_def
proof (rule for_loop_total)
  fix t x
  have "1 \<le> length ts" using assms(1) by (cases ts) simp_all
  then show "\<exists>t1. period_body ts (length ts) pm t x = Inr t1"
    using period_body_total assms(2) by blast
qed

subsection \<open>No candidate events\<close>

text \<open>
  C6: with no candidate timestamps the bin count is 0, and the first histogram of the
  period loop raises ValueError, so \<open>find_pedestals\<close> returns no mask; a sub-run whose
  events are all excluded by the pre-filter fails in the same way.
\<close>

theorem empty_candidates_raise:
  "find_pedestals [] f = Inl (if f = 0 then ZeroDivisionError else ValueError) \<and>
   (select_where (map dragon_time table) (map Not (ffmask table)) = [] \<longrightarrow>
      process_subrun table run_number = Inl ValueError)"
proof -
  have a: "find_pedestals [] f = Inl (if f = 0 then ZeroDivisionError else ValueError)" for f
    by (simp add: find_pedestals_def find_pedestals_on_def search_on_def then_do_def
        period_search_empty)
  have "approximate_frequency run_number \<noteq> 0" by (simp add: approximate_frequency_def)
  then have "find_pedestals [] (approximate_frequency run_number) = Inl ValueError"
    using a by simp
  then have "select_where (map dragon_time table) (map Not (ffmask table)) = [] \<longrightarrow>
      process_subrun table run_number = Inl ValueError"
    by (simp add: process_subrun_def process_subrun_on_def scattered_on_def Let_def
        then_do_def find_pedestals_def)
  then show ?thesis using a by blast
qed

theorem empty_candidates_raise_witness:
  "select_where (map dragon_time [\<lparr>event_id = 7, dragon_time = 3, intensity = Some 40000,
        concentration_pixel = Some (1 / 1000)\<rparr>])
     (map Not (ffmask [\<lparr>event_id = 7, dragon_time = 3, intensity = Some 40000,
        concentration_pixel = Some (1 / 1000)\<rparr>])) = [] \<and>
   process_subrun [\<lparr>event_id = 7, dragon_time = 3, intensity = Some 40000,
        concentration_pixel = Some (1 / 1000)\<rparr>] 3000 = Inl ValueError"
proof -
  have h: "select_where (map dragon_time [\<lparr>event_id = 7, dragon_time = 3, intensity = Some 40000,
        concentration_pixel = Some (1 / 1000)\<rparr>])
     (map Not (ffmask [\<lparr>event_id = 7, dragon_time = 3, intensity = Some 40000,
        concentration_pixel = Some (1 / 1000)\<rparr>])) = []"
    by (simp add: select_where_def ffmask_def gt_const_def lt_const_def)
  show ?thesis using h empty_candidates_raise [of 0 "[\<lparr>event_id = 7, dragon_time = 3, intensity = Some 40000,
        concentration_pixel = Some (1 / 1000)\<rparr>]" 3000] by blast
qed

subsection \<open>The first period hypothesis\<close>

text \<open>
  C10: with at least one candidate timestamp (and a positive frequency), the first
  iteration of the period loop sets the running best; the loop returns with
  \<open>best_period\<close>, \<open>best_contents\<close> and \<open>best_bins\<close> all set, and neither the phase
  stage nor the window selector meets \<open>None\<close>.
\<close>

theorem period_search_sets_best:
  "timestamps \<noteq> [] \<Longrightarrow> 0 < f \<Longrightarrow>
     (\<exists>s1. period_body timestamps (length timestamps) (1 / f) init_state (hd period_step_range) = Inr s1 \<and>
           best_period s1 = Some (1 / f + hd period_step_range * period_step_width) \<and>
           best_contents s1 \<noteq> None \<and> best_bins s1 \<noteq> None) \<and>
     (\<exists>s. period_search timestamps (1 / f) period_step_range = Inr s \<and>
          best_period s \<noteq> None \<and> best_contents s \<noteq> None \<and> best_bins s \<noteq> None \<and>
          phase_search timestamps s steps \<noteq> Inl TypeError \<and>
          (\<forall>s2. phase_search timestamps s steps = Inr s2 \<longrightarrow>
             best_period s2 \<noteq> None \<and> best_contents s2 \<noteq> None \<and> best_bins s2 \<noteq> None \<and>
             select_from timestamps s2 \<noteq> Inl TypeError))"
proof -
  assume ne: "timestamps \<noteq> []" and f: "0 < f"
  have pm: "0 \<le> 1 / f" using f by simp
  have n: "1 \<le> length timestamps" using ne by (cases timestamps) simp_all
  obtain s1 where s1: "period_body timestamps (length timestamps) (1 / f) init_state (hd period_step_range) = Inr s1"
    using period_body_total [OF n pm] by blast
  have first: "best_period s1 = Some (1 / f + hd period_step_range * period_step_width) \<and> found s1"
    using period_body_first [OF s1] by (simp add: init_state_def)
  obtain s where s: "period_search timestamps (1 / f) period_step_range = Inr s"
    using period_search_total [OF ne pm] by blast
  have fs: "found s"
    using period_search_found [of timestamps "1 / f" "- 50" "tl period_step_range" s] s
      period_step_range_Cons by simp
  have noTE: "phase_search timestamps s steps \<noteq> Inl TypeError"
  proof
    assume te: "phase_search timestamps s steps = Inl TypeError"
    from fs obtain bp where bp: "best_period s = Some bp" by (auto simp: found_def)
    have tot: "\<exists>t1. phase_body timestamps (length timestamps) bp t x = Inr t1 \<or>
                    phase_body timestamps (length timestamps) bp t x = Inl ValueError" for t x
      using histogram_Inl
      by (auto simp: phase_body_def Let_def split: sum.splits prod.splits)
    have "for_loop (phase_body timestamps (length timestamps) bp) t xs \<noteq> Inl TypeError" for t xs
    proof (induction xs arbitrary: t)
      case Nil
      then show ?case by simp
    next
      case (Cons x xs)
      then show ?case using tot [of t x] by (auto split: sum.splits)
    qed
    then show False using te bp by (simp add: phase_search_def)
  qed
  have after: "best_period s2 \<noteq> None \<and> best_contents s2 \<noteq> None \<and> best_bins s2 \<noteq> None \<and>
             select_from timestamps s2 \<noteq> Inl TypeError"
    if "phase_search timestamps s steps = Inr s2" for s2
  proof -
    have f2: "found s2" using phase_search_found [OF that fs] .
    have "select_from timestamps s2 \<noteq> Inl TypeError"
      using f2
      by (auto simp: found_def select_from_def window_select_def window_edges_def then_do_def
          py_get_def Let_def split: sum.splits if_splits)
    then show ?thesis using f2 by (simp add: found_def)
  qed
  show ?thesis using s1 first s fs noTE after unfolding found_def by blast
qed


theorem period_search_sets_best_witness:
  "[0::rat] \<noteq> [] \<and> (0::rat) < 50 \<and>
     (\<exists>s1. period_body [0] (length [0::rat]) (1 / 50) init_state (hd period_step_range) = Inr s1 \<and>
           best_period s1 = Some (1 / 50 + hd period_step_range * period_step_width) \<and>
           best_contents s1 \<noteq> None \<and> best_bins s1 \<noteq> None) \<and>
     (\<exists>s. period_search [0] (1 / 50) period_step_range = Inr s \<and>
          best_period s \<noteq> None \<and> best_contents s \<noteq> None \<and> best_bins s \<noteq> None \<and>
          phase_search [0] s steps \<noteq> Inl TypeError \<and>
          (\<forall>s2. phase_search [0] s steps = Inr s2 \<longrightarrow>
             best_period s2 \<noteq> None \<and> best_contents s2 \<noteq> None \<and> best_bins s2 \<noteq> None \<and>
             select_from [0] s2 \<noteq> Inl TypeError))"
proof -
  have a: "[0::rat] \<noteq> []" by simp
  have b: "(0::rat) < 50" by simp
  show ?thesis using a b period_search_sets_best [OF a b] by blast
qed

subsection \<open>Which hypothesis the grid searches keep\<close>

lemma for_loop_last_max:
  fixes sc :: "'a \<Rightarrow> nat" and mp :: "'s \<Rightarrow> nat"
  assumes shape: "\<And>t x t1. body t x = Inr t1 \<Longrightarrow>
            (sc x < mp t \<and> t1 = t) \<or> (mp t \<le> sc x \<and> mp t1 = sc x \<and> tag t1 = g x)"
    and run: "for_loop body s xs = Inr s'"
  shows "(s' = s \<and> (\<forall>x\<in>set xs. sc x < mp s)) \<or>
         (\<exists>pre x post. xs = pre @ x # post \<and> tag s' = g x \<and> mp s' = sc x \<and> mp s \<le> sc x \<and>
            (\<forall>y\<in>set pre. sc y \<le> sc x) \<and> (\<forall>y\<in>set post. sc y < sc x))"
  using run
proof (induction xs arbitrary: s)
  case Nil
  then show ?case by simp
next
  case (Cons x xs)
  from Cons.prems obtain s1 where b: "body s x = Inr s1" and l: "for_loop body s1 xs = Inr s'"
    by (auto split: sum.splits)
  note ih = Cons.IH [OF l]
  from shape [OF b] show ?case
  proof
    assume keep: "sc x < mp s \<and> s1 = s"
    from ih show ?thesis
    proof
      assume "s' = s1 \<and> (\<forall>y\<in>set xs. sc y < mp s1)"
      then show ?thesis using keep by simp
    next
      assume "\<exists>pre z post. xs = pre @ z # post \<and> tag s' = g z \<and> mp s' = sc z \<and> mp s1 \<le> sc z \<and>
            (\<forall>y\<in>set pre. sc y \<le> sc z) \<and> (\<forall>y\<in>set post. sc y < sc z)"
      then obtain pre z post where w: "xs = pre @ z # post" "tag s' = g z" "mp s' = sc z"
        "mp s1 \<le> sc z" "\<forall>y\<in>set pre. sc y \<le> sc z" "\<forall>y\<in>set post. sc y < sc z"
        by blast
      have "x # xs = (x # pre) @ z # post" using w(1) by simp
      moreover have "\<forall>y\<in>set (x # pre). sc y \<le> sc z" using w(4,5) keep by auto
      moreover have "mp s \<le> sc z" using w(4) keep by simp
      ultimately show ?thesis using w(2,3,6) by blast
    qed
  next
    assume upd: "mp s \<le> sc x \<and> mp s1 = sc x \<and> tag s1 = g x"
    from ih show ?thesis
    proof
      assume a: "s' = s1 \<and> (\<forall>y\<in>set xs. sc y < mp s1)"
      have "x # xs = [] @ x # xs" by simp
      moreover have "\<forall>y\<in>set xs. sc y < sc x" using a upd by simp
      moreover have "tag s' = g x \<and> mp s' = sc x" using a upd by simp
      moreover have "\<forall>y\<in>set []. sc y \<le> sc x" by simp
      ultimately show ?thesis using upd by blast
    next
      assume "\<exists>pre z post. xs = pre @ z # post \<and> tag s' = g z \<and> mp s' = sc z \<and> mp s1 \<le> sc z \<and>
            (\<forall>y\<in>set pre. sc y \<le> sc z) \<and> (\<forall>y\<in>set post. sc y < sc z)"
      then obtain pre z post where w: "xs = pre @ z # post" "tag s' = g z" "mp s' = sc z"
        "mp s1 \<le> sc z" "\<forall>y\<in>set pre. sc y \<le> sc z" "\<forall>y\<in>set post. sc y < sc z"
        by blast
      have "x # xs = (x # pre) @ z # post" using w(1) by simp
      moreover have "\<forall>y\<in>set (x # pre). sc y \<le> sc z" using w(4,5) upd by auto
      moreover have "mp s \<le> sc z" using w(4) upd by simp
      ultimately show ?thesis using w(2,3,6) by blast
    qed
  qed
qed

lemma period_body_shape:
  assumes "period_body ts (length ts) pm t i = Inr t1"
  shows "(period_peak ts pm i < max_peak t \<and> t1 = t) \<or>
         (max_peak t \<le> period_peak ts pm i \<and> max_peak t1 = period_peak ts pm i \<and>
          best_period t1 = Some (pm + i * period_step_width))"
  using assms
  by (auto simp: period_body_def period_peak_def peak_of_def Let_def
      split: sum.splits prod.splits if_splits)

lemma phase_body_shape:
  assumes "phase_body ts (length ts) bp t ph = Inr t1"
  shows "(phase_peak ts bp ph < max_peak t \<and> t1 = t) \<or>
         (max_peak t \<le> phase_peak ts bp ph \<and> max_peak t1 = phase_peak ts bp ph \<and>
          best_phase t1 = ph)"
  using assms
  by (auto simp: phase_body_def phase_peak_def peak_of_def Let_def
      split: sum.splits prod.splits if_splits)

text \<open>
  C1, as stated, fails: the loops skip a hypothesis only when its peak is strictly below
  the running best, so a hypothesis with an equal peak replaces the earlier one.  With one
  timestamp every hypothesis has peak 1, and the later period step and the later phase
  are the ones kept.
\<close>

theorem tie_goes_to_later_hypothesis:
  "period_peak [0] (1 / 50) (- 1) = 1 \<and> period_peak [0] (1 / 50) 0 = 1 \<and>
   map_sum id best_period (period_search [0] (1 / 50) [- 1, 0]) = Inr (Some (1 / 50)) \<and>
   phase_peak [0] (1 / 50) 0 = 1 \<and> phase_peak [0] (1 / 50) (1 / 50) = 1 \<and>
   phase_grid (1 / 50) 2 = [0, 1 / 50] \<and>
   map_sum id best_phase
     (phase_search [0] \<lparr>max_peak = 1, best_bins = None, best_contents = None,
                         best_period = Some (1 / 50), best_phase = 0\<rparr> 2) = Inr (1 / 50)"
  by code_simp

text \<open>
  C1, amended: in both loops a new hypothesis replaces the current best whenever its peak
  is not below the current best peak; so the hypothesis kept is the last one of the grid
  whose peak is maximal: no earlier peak is larger and every later peak is strictly smaller.
\<close>

theorem last_maximal_hypothesis_wins:
  "(period_search ts pm grid = Inr s1 \<and> grid \<noteq> [] \<longrightarrow>
      (\<exists>pre i post. grid = pre @ i # post \<and>
         best_period s1 = Some (pm + i * period_step_width) \<and>
         max_peak s1 = period_peak ts pm i \<and>
         (\<forall>j\<in>set pre. period_peak ts pm j \<le> period_peak ts pm i) \<and>
         (\<forall>j\<in>set post. period_peak ts pm j < period_peak ts pm i))) \<and>
   (phase_search ts s1 nsteps = Inr s2 \<and> best_period s1 = Some bp \<and> 0 < nsteps \<longrightarrow>
      (\<exists>pre ph post. phase_grid bp nsteps = pre @ ph # post \<and>
         best_phase s2 = ph \<and>
         max_peak s2 = phase_peak ts bp ph \<and>
         (\<forall>q\<in>set pre. phase_peak ts bp q \<le> phase_peak ts bp ph) \<and>
         (\<forall>q\<in>set post. phase_peak ts bp q < phase_peak ts bp ph)))"
proof (intro conjI impI)
  assume a: "period_search ts pm grid = Inr s1 \<and> grid \<noteq> []"
  then have run: "for_loop (period_body ts (length ts) pm) init_state grid = Inr s1"
    by (simp add: period_search_def)
  have "\<not> (s1 = init_state \<and> (\<forall>x\<in>set grid. period_peak ts pm x < max_peak init_state))"
  proof -
    obtain x where "x \<in> set grid" using a by (cases grid) auto
    moreover have "\<not> period_peak ts pm x < max_peak init_state" by (simp add: init_state_def)
    ultimately show ?thesis by blast
  qed
  then show "\<exists>pre i post. grid = pre @ i # post \<and>
         best_period s1 = Some (pm + i * period_step_width) \<and>
         max_peak s1 = period_peak ts pm i \<and>
         (\<forall>j\<in>set pre. period_peak ts pm j \<le> period_peak ts pm i) \<and>
         (\<forall>j\<in>set post. period_peak ts pm j < period_peak ts pm i)"
    using for_loop_last_max [where body = "period_body ts (length ts) pm"
        and sc = "period_peak ts pm" and mp = max_peak and tag = best_period
        and g = "\<lambda>i. Some (pm + i * period_step_width)", OF period_body_shape run]
    by blast
next
  assume a: "phase_search ts s1 nsteps = Inr s2 \<and> best_period s1 = Some bp \<and> 0 < nsteps"
  let ?s0 = "s1\<lparr>max_peak := 0, best_phase := 0\<rparr>"
  have run: "for_loop (phase_body ts (length ts) bp) ?s0 (phase_grid bp nsteps) = Inr s2"
    using a by (auto simp: phase_search_def)
  have "phase_grid bp nsteps \<noteq> []" using a by (simp add: phase_grid_def linspace_def)
  then obtain x where "x \<in> set (phase_grid bp nsteps)" by (cases "phase_grid bp nsteps") auto
  moreover have "\<not> phase_peak ts bp x < max_peak ?s0" by simp
  ultimately have "\<not> (s2 = ?s0 \<and> (\<forall>x\<in>set (phase_grid bp nsteps). phase_peak ts bp x < max_peak ?s0))"
    by blast
  then show "\<exists>pre ph post. phase_grid bp nsteps = pre @ ph # post \<and>
         best_phase s2 = ph \<and>
         max_peak s2 = phase_peak ts bp ph \<and>
         (\<forall>q\<in>set pre. phase_peak ts bp q \<le> phase_peak ts bp ph) \<and>
         (\<forall>q\<in>set post. phase_peak ts bp q < phase_peak ts bp ph)"
    using for_loop_last_max [where body = "phase_body ts (length ts) bp"
        and sc = "phase_peak ts bp" and mp = max_peak and tag = best_phase
        and g = "\<lambda>ph. ph", OF phase_body_shape run]
    by blast
qed


theorem last_maximal_hypothesis_wins_witness:
  "\<exists>s1 s2.
     period_search [0] (1 / 50) [- 1, 0] = Inr s1 \<and> [- 1, 0 :: rat] \<noteq> [] \<and>
     (\<exists>pre i post. [- 1, 0] = pre @ i # post \<and>
         best_period s1 = Some (1 / 50 + i * period_step_width) \<and>
         max_peak s1 = period_peak [0] (1 / 50) i \<and>
         (\<forall>j\<in>set pre. period_peak [0] (1 / 50) j \<le> period_peak [0] (1 / 50) i) \<and>
         (\<forall>j\<in>set post. period_peak [0] (1 / 50) j < period_peak [0] (1 / 50) i)) \<and>
     phase_search [0] s1 2 = Inr s2 \<and> best_period s1 = Some (1 / 50) \<and> (0::nat) < 2 \<and>
     (\<exists>pre ph post. phase_grid (1 / 50) 2 = pre @ ph # post \<and>
         best_phase s2 = ph \<and>
         max_peak s2 = phase_peak [0] (1 / 50) ph \<and>
         (\<forall>q\<in>set pre. phase_peak [0] (1 / 50) q \<le> phase_peak [0] (1 / 50) ph) \<and>
         (\<forall>q\<in>set post. phase_peak [0] (1 / 50) q < phase_peak [0] (1 / 50) ph))"
proof -
  let ?s1 = "\<lparr>max_peak = 1, best_bins = Some [0, 1 / 50], best_contents = Some [1],
              best_period = Some (1 / 50), best_phase = 0\<rparr>"
  let ?s2 = "\<lparr>max_peak = 1, best_bins = Some [0, 1 / 50], best_contents = Some [1],
              best_period = Some (1 / 50), best_phase = 1 / 50\<rparr>"
  have e1: "period_search [0] (1 / 50) [- 1, 0] = Inr ?s1" by code_simp
  have e2: "phase_search [0] ?s1 2 = Inr ?s2" by code_simp
  have g: "[- 1, 0 :: rat] \<noteq> []" by simp
  have b: "best_period ?s1 = Some (1 / 50)" by simp
  have n: "(0::nat) < 2" by simp
  note t = last_maximal_hypothesis_wins [of "[0]" "1 / 50" "[- 1, 0]" ?s1 2 ?s2 "1 / 50"]
  have c1: "\<exists>pre i post. [- 1, 0] = pre @ i # post \<and>
         best_period ?s1 = Some (1 / 50 + i * period_step_width) \<and>
         max_peak ?s1 = period_peak [0] (1 / 50) i \<and>
         (\<forall>j\<in>set pre. period_peak [0] (1 / 50) j \<le> period_peak [0] (1 / 50) i) \<and>
         (\<forall>j\<in>set post. period_peak [0] (1 / 50) j < period_peak [0] (1 / 50) i)"
    using t e1 g by blast
  have c2: "\<exists>pre ph post. phase_grid (1 / 50) 2 = pre @ ph # post \<and>
         best_phase ?s2 = ph \<and>
         max_peak ?s2 = phase_peak [0] (1 / 50) ph \<and>
         (\<forall>q\<in>set pre. phase_peak [0] (1 / 50) q \<le> phase_peak [0] (1 / 50) ph) \<and>
         (\<forall>q\<in>set post. phase_peak [0] (1 / 50) q < phase_peak [0] (1 / 50) ph)"
    using t e2 b n by blast
  show ?thesis
    apply (rule exI [of _ ?s1])
    apply (rule exI [of _ ?s2])
    using e1 e2 g b n c1 c2 by blast
qed

subsection \<open>The histogram range of the period search\<close>

lemma linspace_last: "0 < n \<Longrightarrow> linspace 0 hi (n + 1) ! n = hi"
  by (simp add: linspace_def nth_append)

lemma period_body_range:
  assumes b: "period_body ts n pm t i = Inr t1" and pm: "0 < pm"
  shows "t1 = t \<or>
         (best_period t1 = Some (pm + i * period_step_width) \<and>
          best_bins t1 = Some (linspace 0 pm (n + 1)) \<and>
          best_contents t1 =
            Some (map (\<lambda>j. length (filter (\<lambda>x. bin_index 0 pm n x = Some j)
                     (map (\<lambda>t. py_mod t (pm + i * period_step_width)) ts))) [0..<n]))"
  using assms
  by (auto simp: period_body_def histogram_def Let_def split: if_splits)

text \<open>
  C2, as stated, fails: the period loop passes \<open>range=(0, period_mean)\<close> for every trial
  period.  At step 50 the trial period is 0.020005; a timestamp that folds to 0.0200001
  lies inside \<open>[0, P_i)\<close> but above the nominal 0.02, and is not counted; the last bin
  edge is 0.02.  Over \<open>[0, P_i]\<close> the same value would be counted.
\<close>

theorem period_histogram_drops_above_nominal:
  "period_search [200001 / 10000000] (1 / 50) [50] =
     Inr \<lparr>max_peak = 0, best_bins = Some [0, 1 / 50], best_contents = Some [0],
          best_period = Some (4001 / 200000), best_phase = 0\<rparr> \<and>
   py_mod (200001 / 10000000) (4001 / 200000) = Some (200001 / 10000000) \<and>
   histogram [py_mod (200001 / 10000000) (4001 / 200000)] 1 0 (4001 / 200000) =
     Inr ([1], [0, 4001 / 200000])"
  by code_simp

text \<open>
  C2, amended: for every trial period the folded timestamps are histogrammed with
  equal-width bins over the fixed range from 0 to the nominal period; the range does not
  depend on the trial period.  The histogram the period search keeps has the edges
  \<open>linspace 0 period_mean (n + 1)\<close>, from 0 to \<open>period_mean\<close>, and counts the values folded
  by the winning period that fall in that range.
\<close>

theorem period_histogram_range_is_nominal:
  assumes "period_search ts pm grid = Inr s" and "grid \<noteq> []" and "0 < pm"
  shows "\<exists>i\<in>set grid.
           best_period s = Some (pm + i * period_step_width) \<and>
           best_bins s = Some (linspace 0 pm (length ts + 1)) \<and>
           linspace 0 pm (length ts + 1) ! 0 = 0 \<and>
           linspace 0 pm (length ts + 1) ! length ts = pm \<and>
           best_contents s =
             Some (map (\<lambda>j. length (filter (\<lambda>x. bin_index 0 pm (length ts) x = Some j)
                      (map (\<lambda>t. py_mod t (pm + i * period_step_width)) ts))) [0..<length ts])"
proof -
  let ?n = "length ts"
  define W where "W = (\<lambda>i (t :: search_state).
           best_period t = Some (pm + i * period_step_width) \<and>
           best_bins t = Some (linspace 0 pm (?n + 1)) \<and>
           best_contents t =
             Some (map (\<lambda>j. length (filter (\<lambda>x. bin_index 0 pm ?n x = Some j)
                      (map (\<lambda>t. py_mod t (pm + i * period_step_width)) ts))) [0..<?n]))"
  define Q where "Q = (\<lambda>(t :: search_state). best_period t = None \<or> (\<exists>i\<in>set grid. W i t))"
  have run: "for_loop (period_body ts ?n pm) init_state grid = Inr s"
    using assms(1) by (simp add: period_search_def)
  have q0: "Q init_state" by (simp add: Q_def init_state_def)
  have step: "Q t1" if "x \<in> set grid" "Q t" "period_body ts ?n pm t x = Inr t1" for t x t1
  proof -
    have "t1 = t \<or> W x t1" using period_body_range [OF that(3) assms(3)] by (simp add: W_def)
    then show ?thesis using that(1,2) unfolding Q_def by auto
  qed
  have qs: "Q s" by (rule for_loop_inv [OF run, of Q, OF q0 step])
  obtain i rest where gr: "grid = i # rest" using assms(2) by (cases grid) auto
  then have "found s" using period_search_found assms(1) by blast
  then obtain k where k: "k \<in> set grid" "W k s" using qs by (auto simp: Q_def found_def)
  have n: "0 < ?n"
  proof (rule ccontr)
    assume "\<not> 0 < ?n"
    then have "ts = []" by simp
    then have "period_search ts pm (i # rest) = Inl ValueError"
      by (simp add: period_search_def period_body_def histogram_def)
    then show False using assms(1) gr by simp
  qed
  have z: "linspace 0 pm (?n + 1) ! 0 = 0" by (simp add: linspace_def nth_append upt_conv_Cons)
  show ?thesis
    using k z linspace_last [OF n, of pm] unfolding W_def by blast
qed

theorem period_histogram_range_is_nominal_witness:
  "period_search [200001 / 10000000] (1 / 50) [50] =
     Inr \<lparr>max_peak = 0, best_bins = Some [0, 1 / 50], best_contents = Some [0],
          best_period = Some (4001 / 200000), best_phase = 0\<rparr> \<and>
   [50 :: rat] \<noteq> [] \<and> (0 :: rat) < 1 / 50 \<and>
   (\<exists>i\<in>set [50].
      best_period \<lparr>max_peak = 0, best_bins = Some [0, 1 / 50], best_contents = Some [0],
          best_period = Some (4001 / 200000), best_phase = 0\<rparr> =
        Some (1 / 50 + i * period_step_width) \<and>
      best_bins \<lparr>max_peak = 0, best_bins = Some [0, 1 / 50], best_contents = Some [0],
          best_period = Some (4001 / 200000), best_phase = 0\<rparr> =
        Some (linspace 0 (1 / 50) (length [200001 / 10000000 :: rat] + 1)) \<and>
      linspace 0 (1 / 50) (length [200001 / 10000000 :: rat] + 1) ! 0 = 0 \<and>
      linspace 0 (1 / 50) (length [200001 / 10000000 :: rat] + 1)
         ! length [200001 / 10000000 :: rat] = 1 / 50 \<and>
      best_contents \<lparr>max_peak = 0, best_bins = Some [0, 1 / 50], best_contents = Some [0],
          best_period = Some (4001 / 200000), best_phase = 0\<rparr> =
        Some (map (\<lambda>j. length (filter
                 (\<lambda>x. bin_index 0 (1 / 50) (length [200001 / 10000000 :: rat]) x = Some j)
                 (map (\<lambda>t. py_mod t (1 / 50 + i * period_step_width)) [200001 / 10000000])))
               [0..<length [200001 / 10000000 :: rat]]))"
proof -
  have e: "period_search [200001 / 10000000] (1 / 50) [50] =
     Inr \<lparr>max_peak = 0, best_bins = Some [0, 1 / 50], best_contents = Some [0],
          best_period = Some (4001 / 200000), best_phase = 0\<rparr>" by code_simp
  have g: "[50 :: rat] \<noteq> []" by simp
  have p: "(0 :: rat) < 1 / 50" by simp
  show ?thesis using e g p period_histogram_range_is_nominal [OF e g p] by blast
qed

subsection \<open>The window selector at the histogram boundary\<close>


lemma phase_body_cases:
  assumes "phase_body ts n bp t ph = Inr t1" and "best_period t = Some bp"
  shows "(t1 = t \<and> max_peak t \<noteq> 0) \<or> phase_done n bp t1"
  using assms
  by (auto simp: phase_body_def histogram_def Let_def phase_done_def phase_edges_def
      split: if_splits)

lemma phase_body_done:
  assumes "phase_body ts n bp t ph = Inr t1" and "phase_done n bp t"
  shows "phase_done n bp t1"
  using phase_body_cases [OF assms(1)] assms(2) by (auto simp: phase_done_def)

lemma phase_search_done:
  assumes "phase_search ts s1 nsteps = Inr s2" and "0 < nsteps"
  shows "\<exists>bp. best_period s1 = Some bp \<and> phase_done (length ts) bp s2"
proof -
  from assms(1) obtain bp where bp: "best_period s1 = Some bp"
    and l: "for_loop (phase_body ts (length ts) bp) (s1\<lparr>max_peak := 0, best_phase := 0\<rparr>)
              (phase_grid bp nsteps) = Inr s2"
    by (auto simp: phase_search_def split: option.splits)
  obtain ph rest where g: "phase_grid bp nsteps = ph # rest"
    using assms(2) by (cases "phase_grid bp nsteps") (auto simp: phase_grid_def linspace_def)
  from l g obtain t1 where
    b: "phase_body ts (length ts) bp (s1\<lparr>max_peak := 0, best_phase := 0\<rparr>) ph = Inr t1" and
    r: "for_loop (phase_body ts (length ts) bp) t1 rest = Inr s2"
    by (auto split: sum.splits)
  have "phase_done (length ts) bp t1" using phase_body_cases [OF b] bp by auto
  then have "phase_done (length ts) bp s2"
    using for_loop_inv [OF r, of "phase_done (length ts) bp"] phase_body_done by blast
  then show ?thesis using bp by blast
qed






lemma period_step_range_ge: "x \<in> set period_step_range \<Longrightarrow> - 50 \<le> x"
  by (auto simp: period_step_range_def linspace_def)

lemma phase_body_total:
  "1 \<le> n \<Longrightarrow> 0 \<le> bp \<Longrightarrow> \<exists>t1. phase_body ts n bp t ph = Inr t1"
proof -
  assume "1 \<le> n" and "0 \<le> bp"
  then obtain c b where
    "histogram (map (\<lambda>t. py_mod (t + ph) bp) ts) n 0 bp = Inr (c, b)"
    using histogram_ok by blast
  then show ?thesis by (simp add: phase_body_def Let_def)
qed

lemma window_edges_single: "window_edges [v] b = Inl IndexError"
  by (simp add: window_edges_def np_argmax_def np_max_def py_get_def then_do_def Let_def)

lemma single_candidate_raises:
  assumes f: "0 < f" and f1: "f \<le> 1000"
  shows "find_pedestals [t] f = Inl IndexError"
proof -
  let ?pm = "1 / f"
  have pm: "1 / 1000 \<le> ?pm" using f f1 by (simp add: field_simps)
  have pm0: "0 \<le> ?pm" using f by simp
  obtain s1 where s1: "period_search [t] ?pm period_step_range = Inr s1"
    using period_search_total [of "[t]" ?pm] pm0 by auto
  have run: "for_loop (period_body [t] (length [t]) ?pm) init_state period_step_range = Inr s1"
    using s1 by (simp add: period_search_def)
  define P where "P = (\<lambda>u :: search_state. \<forall>p. best_period u = Some p \<longrightarrow> 0 < p)"
  have p0: "P init_state" by (simp add: P_def init_state_def)
  have step: "P u1" if "x \<in> set period_step_range" "P u"
      "period_body [t] (length [t]) ?pm u x = Inr u1" for u x u1
  proof -
    have "- 50 \<le> x" using that(1) by (rule period_step_range_ge)
    then have "- 50 / 10000000 \<le> x * period_step_width" by (simp add: period_step_width_def)
    then have "0 < ?pm + x * period_step_width" using pm by linarith
    moreover have "(period_peak [t] ?pm x < max_peak u \<and> u1 = u) \<or>
         (max_peak u \<le> period_peak [t] ?pm x \<and> max_peak u1 = period_peak [t] ?pm x \<and>
          best_period u1 = Some (?pm + x * period_step_width))"
      using period_body_shape [of "[t]" ?pm u x u1] that(3) by simp
    ultimately show ?thesis using that(2) unfolding P_def by auto
  qed
  have ps1: "P s1" by (rule for_loop_inv [OF run, of P, OF p0 step])
  have "found s1"
    using period_search_found [of "[t]" ?pm "- 50" "tl period_step_range" s1] s1
      period_step_range_Cons by simp
  then obtain bp where bp: "best_period s1 = Some bp" by (auto simp: found_def)
  then have bpos: "0 \<le> bp" using ps1 unfolding P_def by fastforce
  have "\<exists>s2. for_loop (phase_body [t] (length [t]) bp) (s1\<lparr>max_peak := 0, best_phase := 0\<rparr>)
           (phase_grid bp steps) = Inr s2"
  proof (rule for_loop_total)
    fix u x
    show "\<exists>u1. phase_body [t] (length [t]) bp u x = Inr u1"
      using phase_body_total [of "length [t]" bp] bpos by simp
  qed
  then obtain s2 where s2: "phase_search [t] s1 steps = Inr s2"
    using bp by (auto simp: phase_search_def)
  have "0 < steps" by (simp add: steps_def)
  then obtain bp' where d: "phase_done (length [t]) bp' s2"
    using phase_search_done [OF s2] by blast
  then obtain c b where c: "best_contents s2 = Some c" "length c = 1"
    and b: "best_bins s2 = Some b" and q: "best_period s2 = Some bp'"
    by (auto simp: phase_done_def)
  obtain v where v: "c = [v]" using c(2) by (cases c) auto
  have "select_from [t] s2 = Inl IndexError"
    using c(1) b q v window_edges_single
    by (simp add: select_from_def window_select_def then_do_def)
  moreover have "f \<noteq> 0" using f by simp
  ultimately show ?thesis
    using s1 s2
    by (simp add: find_pedestals_def find_pedestals_on_def search_on_def then_do_def)
qed

text \<open>
  C3 does not hold of the code: neither neighbour read is guarded.  With a single
  candidate timestamp the histogram has one bin, the read at \<open>ibin + 1\<close> is out of range
  and \<open>find_pedestals\<close> raises IndexError, at either frequency the script uses.  With the
  peak in bin 0 the read at \<open>ibin - 1\<close> takes the last bin, and the lower edge of the
  window becomes the last bin edge.
\<close>

theorem neighbour_reads_unguarded:
  "find_pedestals [t] 50 = Inl IndexError \<and> find_pedestals [t] 100 = Inl IndexError \<and>
   np_argmax [3, 0, 1] = 0 \<and> py_get [3, 0, 1 :: nat] (int (np_argmax [3, 0, 1]) - 1) = Inr 1 \<and>
   window_edges [3, 0, 1] [0, 1, 2, 3] = Inr (3, 1)"
proof -
  have "find_pedestals [t] 50 = Inl IndexError" by (rule single_candidate_raises) simp_all
  moreover have "find_pedestals [t] 100 = Inl IndexError" by (rule single_candidate_raises) simp_all
  moreover have "np_argmax [3, 0, 1] = 0" by code_simp
  moreover have "py_get [3, 0, 1 :: nat] (int (np_argmax [3, 0, 1]) - 1) = Inr 1" by code_simp
  moreover have "window_edges [3, 0, 1] [0, 1, 2, 3] = Inr (3, 1)" by code_simp
  ultimately show ?thesis by blast
qed

subsection \<open>The contamination remover\<close>











lemma fold_clear_length: "length (fold (\<lambda>i m. m[i := False]) T m) = length m"
  by (induction T arbitrary: m) simp_all

lemma clear_nth: "j < length m \<Longrightarrow> m[i := False] ! j = (m ! j \<and> j \<noteq> i)"
  by (cases "i < length m") (auto simp: nth_list_update)

lemma fold_clear_nth:
  "j < length m \<Longrightarrow> fold (\<lambda>i m. m[i := False]) T m ! j = (m ! j \<and> j \<notin> set T)"
proof (induction T arbitrary: m)
  case Nil
  then show ?case by simp
next
  case (Cons i T)
  have "fold (\<lambda>i m. m[i := False]) (i # T) m ! j = fold (\<lambda>i m. m[i := False]) T (m[i := False]) ! j"
    by simp
  also have "\<dots> = (m[i := False] ! j \<and> j \<notin> set T)" using Cons by simp
  also have "\<dots> = (m ! j \<and> j \<notin> set (i # T))" using clear_nth [OF Cons.prems] by auto
  finally show ?case .
qed





subsection \<open>Excluded events\<close>

lemma assign_walk_length: "length (assign_walk a sel vals) = length a"
  by (induction a sel vals rule: assign_walk.induct) (auto split: list.splits)

lemma assign_walk_keep:
  "i < length a \<Longrightarrow> i < length sel \<Longrightarrow> \<not> sel ! i \<Longrightarrow> assign_walk a sel vals ! i = a ! i"
proof (induction a sel vals arbitrary: i rule: assign_walk.induct)
  case (1 a as m ms vals)
  then show ?case by (cases i) (auto split: list.splits)
qed simp_all

lemma masked_assign_keep:
  assumes "masked_assign a sel vals = Inr out"
  shows "length out = length a \<and>
         (\<forall>i. i < length a \<and> i < length sel \<and> \<not> sel ! i \<longrightarrow> out ! i = a ! i)"
  using assms
  by (auto simp: masked_assign_def Let_def assign_walk_length assign_walk_keep split: if_splits)

lemma ffmask_length: "length (ffmask table) = length table"
  by (simp add: ffmask_def)

lemma remove_brightest_le:
  "length (remove_brightest intens m) = length m \<and>
   (\<forall>i<length m. remove_brightest intens m ! i \<longrightarrow> m ! i)"
  by (simp add: remove_brightest_def fold_clear_length fold_clear_nth)

lemma scattered_excluded:
  assumes "scattered_on grid nsteps table run_number = Inr m0"
  shows "length m0 = length table \<and> (\<forall>i<length table. ffmask table ! i \<longrightarrow> \<not> m0 ! i)"
proof -
  from assms obtain vals where
    ma: "masked_assign (replicate (length table) False) (map Not (ffmask table)) vals = Inr m0"
    by (auto simp: scattered_on_def Let_def then_do_def split: sum.splits)
  note k = masked_assign_keep [OF ma]
  have "\<not> m0 ! i" if "i < length table" "ffmask table ! i" for i
  proof -
    have "m0 ! i = replicate (length table) False ! i"
      using k that by (simp add: ffmask_length)
    then show ?thesis using that(1) by simp
  qed
  then show ?thesis using k by simp
qed

text \<open>
  C5: whenever a sub-run yields a mask, the mask has the length of the table, and every
  event the pre-filter excludes is False in it, after the scatter of the candidate mask
  and after the contamination remover, which never sets an entry.
\<close>

theorem excluded_events_stay_false:
  "(scattered_on grid nsteps table run_number = Inr m0 \<longrightarrow>
      length m0 = length table \<and> (\<forall>i<length table. ffmask table ! i \<longrightarrow> \<not> m0 ! i)) \<and>
   (process_subrun_on grid nsteps table run_number = Inr m \<longrightarrow>
      length m = length table \<and> (\<forall>i<length table. ffmask table ! i \<longrightarrow> \<not> m ! i)) \<and>
   (process_subrun table run_number = Inr m' \<longrightarrow>
      length m' = length table \<and> (\<forall>i<length table. ffmask table ! i \<longrightarrow> \<not> m' ! i)) \<and>
   (\<forall>i<length pedmask. remove_brightest intens pedmask ! i \<longrightarrow> pedmask ! i)"
proof -
  have gen: "length r = length table \<and> (\<forall>i<length table. ffmask table ! i \<longrightarrow> \<not> r ! i)"
    if "process_subrun_on g n table run_number = Inr r" for g n r
  proof -
    from that obtain m0 where s: "scattered_on g n table run_number = Inr m0"
      and r: "r = remove_brightest (map (nan_to_zero \<circ> intensity) table) m0"
      by (auto simp: process_subrun_on_def then_do_def split: sum.splits)
    show ?thesis
      using scattered_excluded [OF s] remove_brightest_le [of "map (nan_to_zero \<circ> intensity) table" m0] r
      by auto
  qed
  show ?thesis
    using scattered_excluded gen remove_brightest_le [of intens pedmask] unfolding process_subrun_def
    by blast
qed

theorem excluded_events_stay_false_witness:
  "scattered_on [0] 2
     [\<lparr>event_id = 1, dragon_time = 0, intensity = Some 5, concentration_pixel = Some 1\<rparr>,
      \<lparr>event_id = 2, dragon_time = 1 / 200, intensity = Some 40000,
        concentration_pixel = Some (1 / 1000)\<rparr>,
      \<lparr>event_id = 3, dragon_time = 1 / 300, intensity = None, concentration_pixel = Some 1\<rparr>]
     2000 = Inr [False, False, True] \<and>
   process_subrun_on [0] 2
     [\<lparr>event_id = 1, dragon_time = 0, intensity = Some 5, concentration_pixel = Some 1\<rparr>,
      \<lparr>event_id = 2, dragon_time = 1 / 200, intensity = Some 40000,
        concentration_pixel = Some (1 / 1000)\<rparr>,
      \<lparr>event_id = 3, dragon_time = 1 / 300, intensity = None, concentration_pixel = Some 1\<rparr>]
     2000 = Inr [False, False, False] \<and>
   ffmask
     [\<lparr>event_id = 1, dragon_time = 0, intensity = Some 5, concentration_pixel = Some 1\<rparr>,
      \<lparr>event_id = 2, dragon_time = 1 / 200, intensity = Some 40000,
        concentration_pixel = Some (1 / 1000)\<rparr>,
      \<lparr>event_id = 3, dragon_time = 1 / 300, intensity = None, concentration_pixel = Some 1\<rparr>]
     ! 1 \<and>
   \<not> [False, False, True] ! 1 \<and> \<not> [False, False, False] ! 1 \<and>
   length [False, False, True] = length
     [\<lparr>event_id = 1, dragon_time = 0, intensity = Some 5, concentration_pixel = Some 1\<rparr>,
      \<lparr>event_id = 2, dragon_time = 1 / 200, intensity = Some 40000,
        concentration_pixel = Some (1 / 1000)\<rparr>,
      \<lparr>event_id = 3, dragon_time = 1 / 300, intensity = None, concentration_pixel = Some 1\<rparr>]"
proof -
  let ?T = "[\<lparr>event_id = 1, dragon_time = 0, intensity = Some 5, concentration_pixel = Some 1\<rparr>,
      \<lparr>event_id = 2, dragon_time = 1 / 200, intensity = Some 40000,
        concentration_pixel = Some (1 / 1000)\<rparr>,
      \<lparr>event_id = 3, dragon_time = 1 / 300, intensity = None, concentration_pixel = Some 1\<rparr>]"
  have a: "scattered_on [0] 2 ?T 2000 = Inr [False, False, True]" by code_simp
  have b: "process_subrun_on [0] 2 ?T 2000 = Inr [False, False, False]" by code_simp
  have c: "ffmask ?T ! 1" by code_simp
  have d: "(1 :: nat) < length ?T" by simp
  note t = excluded_events_stay_false [of "[0]" 2 ?T 2000 "[False, False, True]" "[False, False, False]"]
  have "\<not> [False, False, True] ! 1" using t a c d by blast
  moreover have "\<not> [False, False, False] ! 1" using t b c d by blast
  moreover have "length [False, False, True] = length ?T" using t a by blast
  ultimately show ?thesis using a b c by blast
qed

end
